theory Spec2Isabelle
  imports Complex_Main "HOL-Library.Word" "HOL-Library.Sublist"
begin

section \<open>The audio bridge of \<open>LiveVoiceAgent.tsx\<close>\<close>

text \<open>
  The voice agent is one React component. Its state is a handful of flags
  (\<open>useState\<close>) and mutable references (\<open>useRef\<close>); its logic is a set of
  callbacks that run one at a time on the browser's event loop. The embedding
  keeps that shape: one record for the state, one function per callback, and a
  \<open>step\<close> function that dispatches an event to its callback.

  Numbers. A JavaScript number is a double and an element of a
  \<open>Float32Array\<close> a single-precision float. They are modelled by the \<open>real\<close>
  numbers they denote; \<open>NaN\<close> and the infinities are not values of the model,
  and where the code would produce one the model says what follows from it.
  The arithmetic of \<open>resample\<close> rounds after every operation, as the code
  does, because the length it returns depends on the rounding. The product in
  \<open>quantize\<close> is exact for a single-precision sample (24 bits by 15 bits).
  The division in \<open>dequantize\<close> is taken exactly: the rounding of a sample on
  its way to the loudspeaker is left out. \<open>Int16Array\<close> elements are
  \<open>16 word\<close>, read as two's complement by \<open>sint\<close>.
\<close>

subsection \<open>Floating-point rounding\<close>

text \<open>
  IEEE 754 rounds the exact result of an operation to the nearest number with
  \<open>p\<close> significant bits, and to the one with an even last bit when two are
  equally near: \<open>p = 53\<close> for a double. \<open>rne\<close> rounds to the nearest integer,
  ties to even; \<open>binade x\<close> is the exponent \<open>e\<close> with \<open>2^e \<le> |x| < 2^(e+1)\<close>;
  \<open>round_to p x\<close> rounds \<open>x\<close> to a multiple of \<open>2^(e-p+1)\<close>. The exponent is
  not bounded. In \<open>resample\<close> that changes no outcome: a quotient too large
  for a double is \<open>Infinity\<close> in the code and a number beyond any array length
  here, a quotient below half is rounded to zero by \<open>Math.round\<close> in both.
\<close>

definition rne :: "real \<Rightarrow> int" where
  "rne x =
     (let f = \<lfloor>x\<rfloor>; d = x - of_int f
      in if d < 1 / 2 then f
         else if 1 / 2 < d then f + 1
         else if even f then f else f + 1)"

function exponent_up :: "real \<Rightarrow> int" where
  "exponent_up x = (if 2 \<le> x then exponent_up (x / 2) + 1 else 0)"
  by pat_completeness auto
termination
proof (relation "measure (\<lambda>x. nat \<lfloor>x\<rfloor>)")
  show "wf (measure (\<lambda>x::real. nat \<lfloor>x\<rfloor>))" by simp
next
  fix x :: real
  assume "2 \<le> x"
  then have "x / 2 \<le> x - 1" by simp
  then have "\<lfloor>x / 2\<rfloor> \<le> \<lfloor>x - 1\<rfloor>" by (rule floor_mono)
  also have "\<dots> = \<lfloor>x\<rfloor> - 1" by simp
  finally have "\<lfloor>x / 2\<rfloor> < \<lfloor>x\<rfloor>" by simp
  moreover have "0 < \<lfloor>x\<rfloor>" using \<open>2 \<le> x\<close> by simp
  ultimately show "(x / 2, x) \<in> measure (\<lambda>x. nat \<lfloor>x\<rfloor>)" by simp
qed

function exponent_down :: "real \<Rightarrow> int" where
  "exponent_down x = (if 0 < x \<and> x < 1 then exponent_down (2 * x) - 1 else 0)"
  by pat_completeness auto
termination
proof (relation "measure (\<lambda>x. nat \<lceil>1 / x\<rceil>)")
  show "wf (measure (\<lambda>x::real. nat \<lceil>1 / x\<rceil>))" by simp
next
  fix x :: real
  assume a: "0 < x \<and> x < 1"
  then have y: "1 < 1 / x" by simp
  have "1 / (2 * x) = (1 / x) / 2" by simp
  have "\<lceil>(1 / x) / 2\<rceil> < \<lceil>1 / x\<rceil>"
  proof (cases "2 \<le> 1 / x")
    case True
    then have "(1 / x) / 2 \<le> 1 / x - 1" by simp
    then have "\<lceil>(1 / x) / 2\<rceil> \<le> \<lceil>1 / x - 1\<rceil>" by (rule ceiling_mono)
    then show ?thesis by simp
  next
    case False
    with y have "(1 / x) / 2 \<le> 1" by simp
    then have "\<lceil>(1 / x) / 2\<rceil> \<le> 1" by (simp add: ceiling_le_iff)
    moreover from y have "1 < \<lceil>1 / x\<rceil>" by (simp only: less_ceiling_iff of_int_1)
    ultimately show ?thesis by linarith
  qed
  moreover have "1 < \<lceil>1 / x\<rceil>" using y by (simp only: less_ceiling_iff of_int_1)
  ultimately have "nat \<lceil>(1 / x) / 2\<rceil> < nat \<lceil>1 / x\<rceil>" by linarith
  then show "(2 * x, x) \<in> measure (\<lambda>x. nat \<lceil>1 / x\<rceil>)"
    by (simp only: in_measure \<open>1 / (2 * x) = (1 / x) / 2\<close>)
qed

declare exponent_up.simps [simp del] exponent_down.simps [simp del]

definition binade :: "real \<Rightarrow> int" where
  "binade x = (if 1 \<le> \<bar>x\<bar> then exponent_up \<bar>x\<bar> else exponent_down \<bar>x\<bar>)"

definition round_to :: "nat \<Rightarrow> real \<Rightarrow> real" where
  "round_to p x =
     (if x = 0 then 0
      else let u = 2 powi (binade x - int p + 1)
           in of_int (rne (x / u)) * u)"

text \<open>The result of an operation on numbers, and the value a \<open>Float32Array\<close>
  element takes when a number is stored in it (\<open>Math.fround\<close>): 24 bits, and
  multiples of \<open>2^-149\<close> below \<open>2^-126\<close>.\<close>

definition double :: "real \<Rightarrow> real" where
  "double x = round_to 53 x"

definition fround :: "real \<Rightarrow> real" where
  "fround x =
     (if \<bar>x\<bar> < 2 powi (- 126) then of_int (rne (x * 2 ^ 149)) / 2 ^ 149
      else round_to 24 x)"

subsection \<open>Samples: resampling and quantisation\<close>

type_synonym float32array = "real list"
type_synonym int16array = "16 word list"
type_synonym uint8array = "8 word list"

datatype js_error = RangeError | TypeError

text \<open>\<open>Math.round\<close> rounds half up, which is \<^const>\<open>round\<close>; \<open>Math.floor\<close> is
  \<^const>\<open>floor\<close>. One output sample of the loop body of \<open>resample\<close>; \<open>i\<close> and
  \<open>index\<close> are whole numbers, so that \<open>index + 1\<close> is exact. The loop reads
  \<open>data[index]\<close> within the array (lemma \<open>resample_reads_in_range\<close>).\<close>

definition interpolate :: "float32array \<Rightarrow> real \<Rightarrow> nat \<Rightarrow> real" where
  "interpolate data ratio i =
     (let pos = double (real i * ratio);
          index = nat \<lfloor>pos\<rfloor>;
          frac = double (pos - real index)
      in fround
           (if index + 1 < length data
            then double (double (data ! index * double (1 - frac)) +
                         double (data ! (index + 1) * frac))
            else data ! index))"

text \<open>
  \<open>new Float32Array(newLength)\<close> raises a \<open>RangeError\<close> when the length is
  negative or more than the engine allocates. Engines differ in the largest
  length; none allocates \<open>2^50\<close> floats (4 PiB), the bound taken here. Below it
  the model allocates; an engine short of memory raises the same error earlier.
\<close>

definition maxArrayLength :: int where
  "maxArrayLength = 2 ^ 50"

text \<open>
  \<open>resample\<close>. With \<open>toRate\<close> zero the ratio is an infinity and
  \<open>data.length / ratio\<close> a zero: the result is empty. With \<open>fromRate\<close> zero the
  ratio is a zero, and \<open>data.length / ratio\<close> is \<open>NaN\<close> for no data, which is
  length zero, and an infinity otherwise, which is no length.
\<close>

definition resample :: "float32array \<Rightarrow> real \<Rightarrow> real \<Rightarrow> js_error + float32array" where
  "resample data fromRate toRate =
     (if fromRate = toRate then Inr data
      else if toRate = 0 then Inr []
      else if fromRate = 0 then (if data = [] then Inr [] else Inl RangeError)
      else let ratio = double (fromRate / toRate);
               newLength = round (double (real (length data) / ratio))
           in if newLength < 0 \<or> maxArrayLength < newLength then Inl RangeError
              else Inr (map (interpolate data ratio) [0..<nat newLength]))"

text \<open>Storing a number into an \<open>Int16Array\<close> element applies \<open>ToInt16\<close>: the
  fraction is dropped (towards zero) and the integer is taken modulo \<open>2^16\<close>.\<close>

definition trunc :: "real \<Rightarrow> int" where
  "trunc x = (if 0 \<le> x then \<lfloor>x\<rfloor> else \<lceil>x\<rceil>)"

definition toInt16 :: "real \<Rightarrow> 16 word" where
  "toInt16 x = word_of_int (trunc x)"

text \<open>\<open>pcm16[i] = Math.max(-1, Math.min(1, resampledData[i])) * 0x7FFF\<close>\<close>

definition quantize :: "real \<Rightarrow> 16 word" where
  "quantize x = toInt16 (max (- 1) (min 1 x) * 32767)"

text \<open>\<open>float32[i] = pcm16[i] / 0x7FFF\<close>\<close>

definition dequantize :: "16 word \<Rightarrow> real" where
  "dequantize w = real_of_int (sint w) / 32767"

text \<open>\<open>new Uint8Array(pcm16.buffer)\<close> and \<open>new Int16Array(bytes.buffer)\<close>: the two
  views of one buffer, little-endian as on every platform the browsers run on.
  The second constructor raises a \<open>RangeError\<close> on an odd number of bytes.\<close>

definition bytes_of :: "int16array \<Rightarrow> uint8array" where
  "bytes_of pcm16 = concat (map (\<lambda>w. [ucast w, ucast (drop_bit 8 w)]) pcm16)"

fun int16_of :: "uint8array \<Rightarrow> int16array" where
  "int16_of (lo # hi # bytes) = word_cat hi lo # int16_of bytes"
| "int16_of _ = []"

subsection \<open>The state of the component\<close>

datatype language = En | Bn

text \<open>The texts that \<open>setError\<close> shows, by their meaning; those that exist in
  both languages carry the language.\<close>

datatype user_message =
    ConnectionError
  | QuotaExceeded language
  | InitFailed
  | NoMicSupport language
  | MicNotFound language
  | MicDenied language
  | MicError language

text \<open>What \<open>startMic\<close> catches, by its \<open>name\<close>: the browser rejects with a
  \<open>DOMException\<close>, and the function itself throws \<open>{ name: 'NotFoundError' }\<close>.\<close>

datatype dom_error =
    NotFoundError | DevicesNotFoundError | OverconstrainedError
  | NotAllowedError | PermissionDeniedError | OtherError

text \<open>
  What \<open>connect\<close> catches is whatever the library rejects with. The \<open>catch\<close>
  block evaluates \<open>err.message?.includes('429') || err.status ===
  'RESOURCE_EXHAUSTED'\<close>: reading \<open>message\<close> of \<open>null\<close> or \<open>undefined\<close> raises a
  \<open>TypeError\<close>, and so does calling \<open>includes\<close> on a message that is there and
  has no such method; otherwise the test is true (\<open>Quota\<close>) or false.
\<close>

datatype rejection = Nullish | NoIncludes | Quota | Other

datatype context_state = Running | Closed

datatype track_state = TrackLive | TrackEnded

text \<open>What the streaming service knows of a session that \<open>ai.live.connect\<close>
  asked for. A session is live from its \<open>onopen\<close> until it is closed.\<close>

datatype session_state = Pending | Opened | Failed | Shut

record realtime_input =
  media_data :: uint8array
  mimeType :: string

text \<open>A server message, as far as \<open>onmessage\<close> reads it: the bytes that \<open>atob\<close>
  returns for the first part's inline data (\<open>None\<close> when the part is absent;
  an empty string is the empty list), and the \<open>interrupted\<close> flag. The text of
  the part is read and not used.\<close>

record message =
  inlineData :: "uint8array option"
  interrupted :: bool

text \<open>
  Closures. \<open>connect\<close> is memoised by \<open>useCallback\<close> with the dependencies
  \<open>lang\<close> and \<open>systemInstruction\<close>: it is the function of the latest render in
  which \<open>lang\<close> changed, the first render if it never did. The callbacks it
  hands to the library, the \<open>startMic\<close> that \<open>onopen\<close> calls and the
  \<open>onaudioprocess\<close> handler that \<open>startMic\<close> installs all see the constants
  \<open>lang\<close> and \<open>isConnected\<close> of that render, not the current state. A \<open>render\<close>
  holds these two constants. (\<open>stopAll\<close> and \<open>playNextChunk\<close> read references
  and call setters only; which render they come from makes no difference.)
\<close>

record render =
  render_lang :: language
  render_isConnected :: bool

text \<open>A script processor that \<open>startMic\<close> has created: the render its handler
  sees, and the sample rate of its audio context.\<close>

record processor =
  handler_render :: render
  sampleRate :: real

text \<open>
  The first eleven fields are the component's own: the property \<open>lang\<close>, the
  \<open>useState\<close> values, the \<open>useRef\<close> cells and the render of the memoised
  \<open>connect\<close>. A session is named by its number in \<open>sessions\<close>, and \<open>renders\<close>
  holds, for each session, the render of the \<open>connect\<close> call that asked for it.
  The last fields record what the component did to the world: the sessions it
  asked the service for, the processors it created, the buffer sources it
  started that have not ended, every buffer it ever started, and every unit
  it sent.
\<close>

record bridge =
  lang :: language
  isConnected :: bool
  isConnecting :: bool
  isListening :: bool
  error :: "user_message option"
  audioContextRef :: "context_state option"
  streamRef :: "track_state list option"
  sessionRef :: "nat option"
  audioQueue :: "int16array list"
  isPlaying :: bool
  memo :: render
  sessions :: "session_state list"
  renders :: "render list"
  processors :: "processor list"
  sources :: "float32array list"
  started :: "float32array list"
  sent :: "(nat \<times> realtime_input) list"

text \<open>The component as mounted: the application starts in English, and
  \<open>isConnected\<close> is false in the first render.\<close>

definition bridge0 :: bridge where
  "bridge0 =
     \<lparr>lang = En, isConnected = False, isConnecting = False, isListening = False,
      error = None, audioContextRef = None, streamRef = None, sessionRef = None,
      audioQueue = [], isPlaying = False,
      memo = \<lparr>render_lang = En, render_isConnected = False\<rparr>,
      sessions = [], renders = [], processors = [],
      sources = [], started = [], sent = []\<rparr>"

subsection \<open>The callbacks\<close>

text \<open>\<open>stopAll\<close> stops every track of the stream and closes the audio context,
  when there is one, and clears the three flags. The call that would close
  the session is commented out in the source, and no reference is reset.\<close>

definition stopAll :: "bridge \<Rightarrow> bridge" where
  "stopAll s =
     s\<lparr>streamRef := map_option (map (\<lambda>t. TrackEnded)) (streamRef s),
       audioContextRef := map_option (\<lambda>c. Closed) (audioContextRef s),
       isConnected := False,
       isListening := False,
       isConnecting := False\<rparr>"

definition float32_of :: "int16array \<Rightarrow> float32array" where
  "float32_of pcm16 = map dequantize pcm16"

text \<open>\<open>playNextChunk\<close> takes the head of the queue, converts it and starts a
  buffer source for it; the source's \<open>onended\<close> is \<open>playNextChunk\<close> again.\<close>

definition playNextChunk :: "bridge \<Rightarrow> bridge" where
  "playNextChunk s =
     (if audioQueue s = [] \<or> audioContextRef s = None
      then s\<lparr>isPlaying := False\<rparr>
      else let pcm16 = hd (audioQueue s);
               float32 = float32_of pcm16
           in s\<lparr>isPlaying := True,
                audioQueue := tl (audioQueue s),
                sources := sources s @ [float32],
                started := started s @ [float32]\<rparr>)"

text \<open>The language changes in the application's header while the component
  is mounted: the component renders again and \<open>connect\<close> is memoised anew, with
  the \<open>isConnected\<close> of that moment.\<close>

fun other_language :: "language \<Rightarrow> language" where
  "other_language En = Bn"
| "other_language Bn = En"

definition setLang :: "bridge \<Rightarrow> bridge" where
  "setLang s =
     s\<lparr>lang := other_language (lang s),
       memo := \<lparr>render_lang = other_language (lang s),
                render_isConnected = isConnected s\<rparr>\<rparr>"

text \<open>The synchronous part of \<open>connect\<close>, up to the \<open>await\<close>: it has no guard
  of its own. The service is asked for one more session, and the callbacks
  of that session are those of the memoised render.\<close>

definition connect :: "bridge \<Rightarrow> bridge" where
  "connect s =
     s\<lparr>isConnecting := True, error := None,
       sessions := sessions s @ [Pending],
       renders := renders s @ [memo s]\<rparr>"

text \<open>After the \<open>await\<close>: \<open>sessionRef.current = session\<close>, or the \<open>catch\<close> block.
  When the test in the \<open>catch\<close> block raises, the block is left before
  \<open>setIsConnecting(false)\<close>.\<close>

definition connect_resolved :: "bridge \<Rightarrow> nat \<Rightarrow> bridge" where
  "connect_resolved s session = s\<lparr>sessionRef := Some session\<rparr>"

definition connect_rejected :: "bridge \<Rightarrow> render \<Rightarrow> rejection \<Rightarrow> js_error + bridge" where
  "connect_rejected s r err =
     (case err of
        Nullish \<Rightarrow> Inl TypeError
      | NoIncludes \<Rightarrow> Inl TypeError
      | Quota \<Rightarrow>
          Inr (s\<lparr>error := Some (QuotaExceeded (render_lang r)), isConnecting := False\<rparr>)
      | Other \<Rightarrow>
          Inr (s\<lparr>error := Some InitFailed, isConnecting := False\<rparr>))"

text \<open>\<open>onopen\<close> also calls \<open>startMic\<close>, which is asynchronous: its outcome is one
  of the three events below.\<close>

definition onopen :: "bridge \<Rightarrow> bridge" where
  "onopen s = s\<lparr>isConnected := True, isConnecting := False\<rparr>"

definition receive_audio :: "bridge \<Rightarrow> uint8array \<Rightarrow> js_error + bridge" where
  "receive_audio s bytes =
     (if odd (length bytes) then Inl RangeError
      else let s1 = s\<lparr>audioQueue := audioQueue s @ [int16_of bytes]\<rparr>
           in Inr (if \<not> isPlaying s1 then playNextChunk s1 else s1))"

definition onmessage :: "bridge \<Rightarrow> message \<Rightarrow> js_error + bridge" where
  "onmessage s m =
     (case (case inlineData m of
              None \<Rightarrow> Inr s
            | Some bytes \<Rightarrow> if bytes = [] then Inr s else receive_audio s bytes)
      of Inl e \<Rightarrow> Inl e
       | Inr s1 \<Rightarrow>
           Inr (if interrupted m
                then s1\<lparr>audioQueue := [], isPlaying := False\<rparr>
                else s1))"

definition onerror :: "bridge \<Rightarrow> bridge" where
  "onerror s = stopAll (s\<lparr>error := Some ConnectionError\<rparr>)"

definition onclose :: "bridge \<Rightarrow> bridge" where
  "onclose s = stopAll (s\<lparr>isConnected := False\<rparr>)"

text \<open>\<open>startMic\<close>, in the render \<open>r\<close> of the \<open>connect\<close> call whose \<open>onopen\<close> called
  it: no \<open>getUserMedia\<close> in the browser; a failure of \<open>enumerateDevices\<close> or
  \<open>getUserMedia\<close>; or success with a stream of \<open>n\<close> tracks, a new audio context
  of sample rate \<open>rate\<close> and a script processor whose handler is a closure of
  the same render.\<close>

definition startMic_unsupported :: "bridge \<Rightarrow> render \<Rightarrow> bridge" where
  "startMic_unsupported s r = s\<lparr>error := Some (NoMicSupport (render_lang r))\<rparr>"

definition mic_message :: "language \<Rightarrow> dom_error \<Rightarrow> user_message" where
  "mic_message l e =
     (if e = NotFoundError \<or> e = DevicesNotFoundError \<or> e = OverconstrainedError
      then MicNotFound l
      else if e = NotAllowedError \<or> e = PermissionDeniedError
      then MicDenied l
      else MicError l)"

definition startMic_failed :: "bridge \<Rightarrow> render \<Rightarrow> dom_error \<Rightarrow> bridge" where
  "startMic_failed s r e = stopAll (s\<lparr>error := Some (mic_message (render_lang r) e)\<rparr>)"

definition startMic_ok :: "bridge \<Rightarrow> render \<Rightarrow> nat \<Rightarrow> real \<Rightarrow> bridge" where
  "startMic_ok s r n rate =
     s\<lparr>streamRef := Some (replicate n TrackLive),
       audioContextRef := Some Running,
       processors := processors s @ [\<lparr>handler_render = r, sampleRate = rate\<rparr>],
       isListening := True\<rparr>"

text \<open>
  \<open>onaudioprocess\<close>, the handler of processor \<open>proc\<close>. It reads the current
  \<open>sessionRef\<close> and the \<open>isConnected\<close> of its render. An error that \<open>resample\<close>
  raises leaves the handler. The unit carries the bytes that \<open>btoa\<close> encodes.
\<close>

definition targetSampleRate :: real where
  "targetSampleRate = 16000"

definition onaudioprocess :: "processor \<Rightarrow> bridge \<Rightarrow> float32array \<Rightarrow> js_error + bridge" where
  "onaudioprocess proc s inputData =
     (case sessionRef s of
        None \<Rightarrow> Inr s
      | Some session \<Rightarrow>
          if \<not> render_isConnected (handler_render proc) then Inr s
          else case resample inputData (sampleRate proc) targetSampleRate of
                 Inl err \<Rightarrow> Inl err
               | Inr resampledData \<Rightarrow>
                   let pcm16 = map quantize resampledData;
                       media = \<lparr>media_data = bytes_of pcm16,
                                mimeType = ''audio/pcm;rate=16000''\<rparr>
                   in Inr (s\<lparr>sent := sent s @ [(session, media)]\<rparr>))"

subsection \<open>Events\<close>

text \<open>
  \<open>Click\<close> is the round button: disabled while \<open>isConnecting\<close>, and its handler
  is \<open>isConnected ? stopAll : connect\<close>, with the current \<open>isConnected\<close> and the
  memoised \<open>connect\<close>. \<open>ToggleLang\<close> is the language button of the application.
  The other events come from the service (\<open>Open\<close>, \<open>Resolve\<close>, \<open>Reject\<close>,
  \<open>Message\<close>, \<open>SdkError\<close>, \<open>Close\<close>), from the \<open>startMic\<close> that the \<open>onopen\<close> of
  session \<open>h\<close> called (\<open>MicUnsupported h\<close>, \<open>MicFailed h\<close>, \<open>MicStarted h\<close>), from
  the \<open>p\<close>-th script processor (\<open>AudioProcess p\<close>), from a buffer source that
  ends (\<open>Ended k\<close>: the \<open>k\<close>-th of those playing) and from React (\<open>Unmount\<close>).
  \<open>audioContext.close()\<close> is asynchronous, so that a frame the audio thread has
  delivered still reaches the handler after \<open>stopAll\<close>. An event that cannot
  happen in the state (a session that is not pending opens, a source that
  does not exist ends) leaves the state as it is, as does a handler that
  raises.
\<close>

datatype event =
    Click
  | ToggleLang
  | Open nat
  | Resolve nat
  | Reject nat rejection
  | Message message
  | SdkError
  | Close nat
  | MicUnsupported nat
  | MicFailed nat dom_error
  | MicStarted nat nat real
  | AudioProcess nat float32array
  | Ended nat
  | Unmount

definition session_is :: "bridge \<Rightarrow> nat \<Rightarrow> session_state \<Rightarrow> bool" where
  "session_is s h st = (h < length (sessions s) \<and> sessions s ! h = st)"

text \<open>The \<open>onopen\<close> of session \<open>h\<close> has run.\<close>

definition opened :: "bridge \<Rightarrow> nat \<Rightarrow> bool" where
  "opened s h = (session_is s h Opened \<or> session_is s h Shut)"

definition step :: "bridge \<Rightarrow> event \<Rightarrow> bridge" where
  "step s e =
     (case e of
        Click \<Rightarrow>
          if isConnecting s then s
          else if isConnected s then stopAll s
          else connect s
      | ToggleLang \<Rightarrow> setLang s
      | Open h \<Rightarrow>
          if session_is s h Pending
          then onopen (s\<lparr>sessions := (sessions s)[h := Opened]\<rparr>)
          else s
      | Resolve h \<Rightarrow>
          if session_is s h Opened then connect_resolved s h else s
      | Reject h err \<Rightarrow>
          if session_is s h Pending
          then (case connect_rejected (s\<lparr>sessions := (sessions s)[h := Failed]\<rparr>)
                       (renders s ! h) err of
                  Inl raised \<Rightarrow> s\<lparr>sessions := (sessions s)[h := Failed]\<rparr>
                | Inr s1 \<Rightarrow> s1)
          else s
      | Message m \<Rightarrow>
          (case onmessage s m of Inl raised \<Rightarrow> s | Inr s1 \<Rightarrow> s1)
      | SdkError \<Rightarrow> onerror s
      | Close h \<Rightarrow>
          if session_is s h Opened
          then onclose (s\<lparr>sessions := (sessions s)[h := Shut]\<rparr>)
          else s
      | MicUnsupported h \<Rightarrow>
          if opened s h then startMic_unsupported s (renders s ! h) else s
      | MicFailed h err \<Rightarrow>
          if opened s h then startMic_failed s (renders s ! h) err else s
      | MicStarted h n rate \<Rightarrow>
          if opened s h then startMic_ok s (renders s ! h) n rate else s
      | AudioProcess p inputData \<Rightarrow>
          if p < length (processors s)
          then (case onaudioprocess (processors s ! p) s inputData of
                  Inl raised \<Rightarrow> s
                | Inr s1 \<Rightarrow> s1)
          else s
      | Ended k \<Rightarrow>
          if k < length (sources s)
          then playNextChunk
                 (s\<lparr>sources := take k (sources s) @ drop (Suc k) (sources s)\<rparr>)
          else s
      | Unmount \<Rightarrow> stopAll s)"

primrec run :: "bridge \<Rightarrow> event list \<Rightarrow> bridge" where
  "run s [] = s"
| "run s (e # es) = run (step s e) es"

text \<open>The sessions that are live, and the chunks a list of events delivers.\<close>

definition live :: "bridge \<Rightarrow> nat list" where
  "live s = filter (\<lambda>h. sessions s ! h = Opened) [0..<length (sessions s)]"

definition chunks_of :: "message \<Rightarrow> int16array list" where
  "chunks_of m =
     (case inlineData m of
        None \<Rightarrow> []
      | Some bytes \<Rightarrow>
          if bytes = [] \<or> odd (length bytes) then [] else [int16_of bytes])"

fun payload :: "event \<Rightarrow> int16array list" where
  "payload (Message m) = chunks_of m"
| "payload _ = []"

definition payloads :: "event list \<Rightarrow> int16array list" where
  "payloads es = concat (map payload es)"

text \<open>An interruption: a message with the \<open>interrupted\<close> flag that \<open>onmessage\<close>
  processes to its end. (On an odd number of bytes the handler raises before
  it reads the flag.) \<open>since_interruption\<close> keeps the events after the last
  interruption.\<close>

fun interruption :: "event \<Rightarrow> bool" where
  "interruption (Message m) =
     (interrupted m \<and>
      (case inlineData m of None \<Rightarrow> True | Some bytes \<Rightarrow> even (length bytes)))"
| "interruption _ = False"

definition since_interruption :: "event list \<Rightarrow> event list" where
  "since_interruption es =
     foldl (\<lambda>acc e. if interruption e then [] else acc @ [e]) [] es"


definition playback ::
  "bridge \<Rightarrow> int16array list \<times> bool \<times> float32array list \<times> float32array list" where
  "playback s = (audioQueue s, isPlaying s, sources s, started s)"


subsection \<open>Example inputs\<close>

text \<open>Three audio messages of one sample each and an interruption. A first
  session that has opened and started the microphone at 48000 Hz
  (\<open>listening\<close>), with chunk A playing and B, C queued (\<open>playingA\<close>). A second
  session, after the language was changed during the first one, the first
  was stopped and the button clicked again (\<open>sending\<close>).\<close>

definition msgA :: message where
  "msgA = \<lparr>inlineData = Some [1, 0], interrupted = False\<rparr>"

definition msgB :: message where
  "msgB = \<lparr>inlineData = Some [2, 0], interrupted = False\<rparr>"

definition msgC :: message where
  "msgC = \<lparr>inlineData = Some [3, 0], interrupted = False\<rparr>"

definition msgInterrupt :: message where
  "msgInterrupt = \<lparr>inlineData = None, interrupted = True\<rparr>"

definition listening :: bridge where
  "listening = run bridge0 [Click, Open 0, Resolve 0, MicStarted 0 1 48000]"

definition playingA :: bridge where
  "playingA = run listening [Message msgA, Message msgB, Message msgC]"

definition sending :: bridge where
  "sending =
     run listening [ToggleLang, Click, Click, Open 1, Resolve 1, MicStarted 1 1 48000]"

subsection \<open>Facts about rounding\<close>

lemma exponent_up_bounds:
  "1 \<le> x \<Longrightarrow> 2 powi exponent_up x \<le> x \<and> x < 2 powi (exponent_up x + 1)"
proof (induction x rule: exponent_up.induct)
  case (1 x)
  show ?case
  proof (cases "2 \<le> x")
    case True
    then have "1 \<le> x / 2" by simp
    with "1.IH" [OF True] have ih: "2 powi exponent_up (x / 2) \<le> x / 2"
      "x / 2 < 2 powi (exponent_up (x / 2) + 1)" by simp_all
    have e: "exponent_up x = exponent_up (x / 2) + 1"
      using True by (subst exponent_up.simps) simp
    have "2 powi (exponent_up (x / 2) + 1) = 2 powi exponent_up (x / 2) * (2::real)"
      by (simp add: power_int_add)
    moreover have "2 powi (exponent_up (x / 2) + 1 + 1) = 2 powi (exponent_up (x / 2) + 1) * (2::real)"
      by (simp add: power_int_add)
    ultimately show ?thesis using ih e by simp
  next
    case False
    then have "exponent_up x = 0" by (subst exponent_up.simps) simp
    with False "1.prems" show ?thesis by simp
  qed
qed

lemma exponent_down_bounds:
  "0 < x \<Longrightarrow> x < 1 \<Longrightarrow> 2 powi exponent_down x \<le> x \<and> x < 2 powi (exponent_down x + 1)"
proof (induction x rule: exponent_down.induct)
  case (1 x)
  have e: "exponent_down x = exponent_down (2 * x) - 1"
    using "1.prems" by (subst exponent_down.simps) simp
  show ?case
  proof (cases "2 * x < 1")
    case True
    with "1.IH" "1.prems" have ih: "2 powi exponent_down (2 * x) \<le> 2 * x"
      "2 * x < 2 powi (exponent_down (2 * x) + 1)" by simp_all
    have "2 powi exponent_down (2 * x) = 2 powi (exponent_down (2 * x) - 1) * (2::real)"
      by (simp add: power_int_diff)
    moreover have "2 powi (exponent_down (2 * x) + 1) = 2 powi exponent_down (2 * x) * (2::real)"
      by (simp add: power_int_add)
    ultimately show ?thesis using ih e by simp
  next
    case False
    then have "exponent_down (2 * x) = 0" by (subst exponent_down.simps) simp
    with e have "exponent_down x = - 1" by simp
    with False "1.prems" show ?thesis by (simp add: power_int_minus)
  qed
qed

lemma binade_bounds:
  assumes "x \<noteq> 0"
  shows "2 powi binade x \<le> \<bar>x\<bar>" and "\<bar>x\<bar> < 2 powi (binade x + 1)"
proof -
  have "2 powi binade x \<le> \<bar>x\<bar> \<and> \<bar>x\<bar> < 2 powi (binade x + 1)"
  proof (cases "1 \<le> \<bar>x\<bar>")
    case True
    with exponent_up_bounds [of "\<bar>x\<bar>"] show ?thesis by (simp add: binade_def)
  next
    case False
    with assms exponent_down_bounds [of "\<bar>x\<bar>"] show ?thesis by (simp add: binade_def)
  qed
  then show "2 powi binade x \<le> \<bar>x\<bar>" and "\<bar>x\<bar> < 2 powi (binade x + 1)" by simp_all
qed


lemma rne_error: "\<bar>real_of_int (rne x) - x\<bar> \<le> 1 / 2"
  unfolding rne_def Let_def by (simp; linarith)

lemma rne_of_int [simp]: "rne (of_int k) = k"
  by (simp add: rne_def)

lemma round_to_unfold:
  assumes "x \<noteq> 0" and "u = 2 powi (binade x - int p + 1)"
  shows "round_to p x = of_int (rne (x / u)) * u"
  using assms by (simp add: round_to_def Let_def)

lemma round_to_error:
  "\<bar>round_to p x - x\<bar> \<le> \<bar>x\<bar> / 2 ^ p"
proof (cases "x = 0")
  case True
  then show ?thesis by (simp add: round_to_def)
next
  case False
  define u :: real where "u = 2 powi (binade x - int p + 1)"
  have u: "0 < u" by (simp add: u_def)
  have "x = (x / u) * u" using u by simp
  then have "round_to p x - x = (of_int (rne (x / u)) - x / u) * u"
    unfolding round_to_unfold [OF False u_def] by (simp only: left_diff_distrib)
  then have "\<bar>round_to p x - x\<bar> = \<bar>of_int (rne (x / u)) - x / u\<bar> * u"
    using u by (simp add: abs_mult)
  also have "\<dots> \<le> (1 / 2) * u"
    using rne_error [of "x / u"] u by (intro mult_right_mono) simp_all
  also have "(1 / 2) * u = 2 powi binade x / 2 ^ p"
    by (simp add: u_def power_int_add power_int_diff)
  also have "\<dots> \<le> \<bar>x\<bar> / 2 ^ p"
    using binade_bounds(1) [OF False] by (simp add: divide_right_mono)
  finally show ?thesis .
qed




lemma double_error: "\<bar>double x - x\<bar> \<le> \<bar>x\<bar> / 2 ^ 53"
  unfolding double_def by (rule round_to_error)

lemma double_bounds:
  assumes "0 \<le> x"
  shows "x * (1 - 1 / 2 ^ 53) \<le> double x" and "double x \<le> x * (1 + 1 / 2 ^ 53)"
proof -
  from double_error [of x] assms have "\<bar>double x - x\<bar> \<le> x / 2 ^ 53" by simp
  then have "double x - x \<le> x / 2 ^ 53" and "- (double x - x) \<le> x / 2 ^ 53"
    by (simp_all only: abs_le_iff)
  then have l: "x - x / 2 ^ 53 \<le> double x" and h: "double x \<le> x + x / 2 ^ 53"
    by linarith+
  have el: "x * (1 - 1 / 2 ^ 53) = x - x / 2 ^ 53"
    by (simp only: right_diff_distrib mult_1_right times_divide_eq_right)
  have eh: "x * (1 + 1 / 2 ^ 53) = x + x / 2 ^ 53"
    by (simp only: distrib_left mult_1_right times_divide_eq_right)
  show "x * (1 - 1 / 2 ^ 53) \<le> double x" unfolding el by (rule l)
  show "double x \<le> x * (1 + 1 / 2 ^ 53)" unfolding eh by (rule h)
qed

lemma double_pos: "0 < x \<Longrightarrow> 0 < double x"
proof -
  assume x: "0 < x"
  have "0 < x * (1 - 1 / 2 ^ 53)" using x by simp
  also have "\<dots> \<le> double x" using x by (intro double_bounds(1)) simp
  finally show ?thesis .
qed


text \<open>Two rounded divisions stay close to the exact quotient.\<close>

lemma double_quotient_close:
  assumes a: "0 < a" and l: "0 \<le> l"
  shows "\<bar>double (l / double a) - l / a\<bar> \<le> (l / a) / 2 ^ 51"
proof -
  define r where "r = double a"
  define c1 :: real where "c1 = 1 - 1 / 2 ^ 53"
  define c2 :: real where "c2 = 1 + 1 / 2 ^ 53"
  have c: "0 < c1" "0 < c2" by (simp_all add: c1_def c2_def)
  have r1: "a * c1 \<le> r" and r2: "r \<le> a * c2"
    using double_bounds [of a] a by (simp_all add: r_def c1_def c2_def)
  have ac1: "0 < a * c1" using a c by simp
  then have r: "0 < r" using r1 by linarith
  have lr: "0 \<le> l / r" using l r by simp
  have q1: "(l / r) * c1 \<le> double (l / r)" and q2: "double (l / r) \<le> (l / r) * c2"
    using double_bounds [OF lr] by (simp_all add: c1_def c2_def)
  have "l / r \<le> l / (a * c1)" using l r1 ac1 by (intro divide_left_mono) simp_all
  then have "(l / r) * c2 \<le> (l / (a * c1)) * c2" using c by (intro mult_right_mono) simp_all
  with q2 have up: "double (l / r) \<le> (l / a) * (c2 / c1)" using c by (simp add: field_simps)
  have "l / (a * c2) \<le> l / r" using l r2 r by (intro divide_left_mono) simp_all
  then have "(l / (a * c2)) * c1 \<le> (l / r) * c1" using c by (intro mult_right_mono) simp_all
  with q1 have lo: "(l / a) * (c1 / c2) \<le> double (l / r)" using c by (simp add: field_simps)
  have la: "0 \<le> l / a" using a l by simp
  have "c2 / c1 \<le> 1 + 1 / 2 ^ 51" by (simp add: c1_def c2_def)
  then have "(l / a) * (c2 / c1) \<le> (l / a) * (1 + 1 / 2 ^ 51)" using la by (rule mult_left_mono)
  with up have up': "double (l / r) \<le> l / a + (l / a) / 2 ^ 51" by (simp add: algebra_simps)
  have "1 - 1 / 2 ^ 51 \<le> c1 / c2" by (simp add: c1_def c2_def)
  then have "(l / a) * (1 - 1 / 2 ^ 51) \<le> (l / a) * (c1 / c2)" using la by (rule mult_left_mono)
  with lo have lo': "l / a - (l / a) / 2 ^ 51 \<le> double (l / r)" by (simp add: algebra_simps)
  from up' lo' show ?thesis unfolding r_def by (simp only: abs_le_iff) linarith
qed




text \<open>The read \<open>data[index]\<close> is in range whenever the loop runs.\<close>

lemma read_in_range:
  assumes r: "0 < r"
    and n: "round (double (real l / r)) \<le> 2 ^ 50"
    and i: "int i < round (double (real l / r))"
  shows "nat \<lfloor>double (real i * r)\<rfloor> < l"
proof -
  define qt where "qt = double (real l / r)"
  define x where "x = real i * r"
  have lr: "0 \<le> real l / r" using r by simp
  have x0: "0 \<le> x" using r by (simp add: x_def)
  have q1: "(real l / r) * (1 - 1 / 2 ^ 53) \<le> qt" and q2: "qt \<le> (real l / r) * (1 + 1 / 2 ^ 53)"
    unfolding qt_def using double_bounds [OF lr] by simp_all
  have nl: "real_of_int (round qt) \<le> qt + 1 / 2" and nu: "qt + 1 / 2 < real_of_int (round qt) + 1"
    unfolding round_def by linarith+
  from i have "int i + 1 \<le> round qt" unfolding qt_def by simp
  then have "real_of_int (int i + 1) \<le> real_of_int (round qt)" by (simp only: of_int_le_iff)
  then have i': "real i + 1 \<le> real_of_int (round qt)" by simp
  from n have "real_of_int (round qt) \<le> real_of_int (2 ^ 50)"
    unfolding qt_def by (simp only: of_int_le_iff)
  then have n': "real_of_int (round qt) \<le> 2 ^ 50" by simp
  txt \<open>the ratio is not too small for the length\<close>
  from q1 nu n' have "(real l / r) * (1 - 1 / 2 ^ 53) < 2 ^ 50 + 1 / 2" by linarith
  then have "(real l / r) * (1 - 1 / 2 ^ 53) * r < (2 ^ 50 + 1 / 2) * r"
    using r by (intro mult_strict_right_mono)
  then have f3: "real l * (1 - 1 / 2 ^ 53) < (2 ^ 50 + 1 / 2) * r"
    using r by simp
  txt \<open>the position stays half a step below the length\<close>
  from i' nl q2 have "real i \<le> (real l / r) * (1 + 1 / 2 ^ 53) - 1 / 2" by linarith
  then have "real i * r \<le> ((real l / r) * (1 + 1 / 2 ^ 53) - 1 / 2) * r"
    using r by (intro mult_right_mono) simp_all
  also have "\<dots> = real l * (1 + 1 / 2 ^ 53) - r / 2"
    using r by (simp add: left_diff_distrib)
  finally have f1: "x \<le> real l * (1 + 1 / 2 ^ 53) - r / 2" unfolding x_def .
  have f2: "double x \<le> x * (1 + 1 / 2 ^ 53)" using x0 by (rule double_bounds(2))
  have p0: "0 \<le> double x"
  proof -
    have "0 \<le> x * (1 - 1 / 2 ^ 53)" using x0 by simp
    also have "\<dots> \<le> double x" using x0 by (rule double_bounds(1))
    finally show ?thesis .
  qed
  have "x * (1 + 1 / 2 ^ 53) \<le> (real l * (1 + 1 / 2 ^ 53) - r / 2) * (1 + 1 / 2 ^ 53)"
    using f1 by (intro mult_right_mono) simp_all
  with f2 have "double x \<le> (real l * (1 + 1 / 2 ^ 53) - r / 2) * (1 + 1 / 2 ^ 53)" by linarith
  then have f4: "double x \<le> real l * ((1 + 1 / 2 ^ 53) * (1 + 1 / 2 ^ 53)) - r * ((1 + 1 / 2 ^ 53) / 2)"
    by (simp add: algebra_simps)
  from f3 f4 have "double x < real l" by simp
  then have "\<lfloor>double x\<rfloor> < int l" by (simp add: floor_less_iff)
  moreover have "0 \<le> \<lfloor>double x\<rfloor>" using p0 by simp
  ultimately show ?thesis unfolding x_def by linarith
qed

lemma double_zero [simp]: "double 0 = 0"
  by (simp add: double_def round_to_def)

lemma double_nonneg: "0 \<le> x \<Longrightarrow> 0 \<le> double x"
  using double_pos [of x] by (cases "x = 0") simp_all

lemma double_neg:
  assumes "x < 0"
  shows "double x < 0"
proof -
  from double_error [of x] assms have "\<bar>double x - x\<bar> \<le> (- x) / 2 ^ 53" by simp
  then have "double x - x \<le> (- x) / 2 ^ 53" by (simp only: abs_le_iff)
  moreover have "(- x) / 2 ^ 53 < (- x) / 1"
    using assms by (intro divide_strict_left_mono) simp_all
  ultimately show ?thesis by simp
qed


lemma round_nonneg: "0 \<le> x \<Longrightarrow> 0 \<le> round x"
  by (simp add: round_def)


subsection \<open>Facts about samples\<close>

text \<open>The length that \<open>resample\<close> computes for positive rates: it is not
  negative, it is near the exact quotient, and it is the rounded exact
  quotient when the source rate is a whole multiple of the target rate.\<close>

lemma newLength_nonneg:
  assumes "0 < fromRate" and "0 < toRate"
  shows "0 \<le> round (double (real l / double (fromRate / toRate)))"
proof -
  from assms have "0 < double (fromRate / toRate)" by (intro double_pos) simp
  then have "0 \<le> real l / double (fromRate / toRate)" by simp
  then show ?thesis by (intro round_nonneg double_nonneg)
qed

lemma newLength_close:
  assumes "0 < fromRate" and "0 < toRate"
  shows "\<bar>double (real l / double (fromRate / toRate)) - real l * toRate / fromRate\<bar>
           \<le> real l * toRate / fromRate / 2 ^ 51"
proof -
  from assms have a: "0 < fromRate / toRate" by simp
  have "real l / (fromRate / toRate) = real l * toRate / fromRate" by simp
  with double_quotient_close [OF a, of "real l"] show ?thesis by simp
qed

lemma round_close:
  assumes "\<bar>y - q\<bar> \<le> d"
  shows "\<bar>real_of_int (round y) - q\<bar> \<le> 1 / 2 + d"
proof -
  have "\<bar>real_of_int (round y) - y\<bar> \<le> 1 / 2" by (rule of_int_round_abs_le)
  with assms show ?thesis by linarith
qed

lemma newLength_fits:
  assumes "0 < fromRate" and "0 < toRate"
    and "real l * toRate / fromRate \<le> 2 ^ 49"
  shows "round (double (real l / double (fromRate / toRate))) \<le> maxArrayLength"
proof -
  let ?y = "double (real l / double (fromRate / toRate))"
  let ?q = "real l * toRate / fromRate"
  from newLength_close [OF assms(1,2), of l] have "\<bar>?y - ?q\<bar> \<le> ?q / 2 ^ 51" .
  then have "\<bar>real_of_int (round ?y) - ?q\<bar> \<le> 1 / 2 + ?q / 2 ^ 51" by (rule round_close)
  moreover have "?q / 2 ^ 51 \<le> 2 ^ 49 / 2 ^ 51" using assms(3) by (intro divide_right_mono) simp_all
  ultimately have "real_of_int (round ?y) \<le> 2 ^ 49 + 1" using assms(3) by (simp add: abs_le_iff)
  also have "\<dots> \<le> real_of_int (2 ^ 50)" by simp
  finally have "round ?y \<le> 2 ^ 50" by (simp only: of_int_le_iff)
  then show ?thesis by (simp add: maxArrayLength_def)
qed



text \<open>What \<open>resample\<close> returns for rates that differ and are not zero.\<close>

lemma resample_rates:
  assumes "fromRate \<noteq> toRate" and "fromRate \<noteq> 0" and "toRate \<noteq> 0"
  shows "resample data fromRate toRate =
           (if round (double (real (length data) / double (fromRate / toRate))) < 0 \<or>
               maxArrayLength < round (double (real (length data) / double (fromRate / toRate)))
            then Inl RangeError
            else Inr (map (interpolate data (double (fromRate / toRate)))
                        [0..<nat (round (double (real (length data) / double (fromRate / toRate))))]))"
  using assms by (simp add: resample_def Let_def)

lemma resample_positive:
  assumes "0 < fromRate" and "0 < toRate" and "fromRate \<noteq> toRate"
    and "real (length data) * toRate / fromRate \<le> 2 ^ 49"
  shows "resample data fromRate toRate =
           Inr (map (interpolate data (double (fromRate / toRate)))
                  [0..<nat (round (double (real (length data) / double (fromRate / toRate))))])"
proof -
  from newLength_nonneg [OF assms(1,2), of "length data"] newLength_fits [OF assms(1,2,4)]
  have "\<not> (round (double (real (length data) / double (fromRate / toRate))) < 0 \<or>
            maxArrayLength < round (double (real (length data) / double (fromRate / toRate))))"
    by simp
  moreover have "fromRate \<noteq> 0" "toRate \<noteq> 0" using assms(1,2) by simp_all
  ultimately show ?thesis using resample_rates [OF assms(3), of data] by simp
qed


text \<open>The read \<open>data[index]\<close> of the loop is in range: no \<open>undefined\<close> (stored
  as \<open>NaN\<close>) reaches the result. With rates of opposite sign the length is
  negative or zero, and the loop does not run.\<close>

lemma resample_reads_in_range:
  assumes "fromRate \<noteq> toRate" and "resample data fromRate toRate = Inr out"
    and "i < length out"
  shows "nat \<lfloor>double (real i * double (fromRate / toRate))\<rfloor> < length data"
proof -
  let ?r = "double (fromRate / toRate)"
  let ?n = "round (double (real (length data) / ?r))"
  have rates: "fromRate \<noteq> 0 \<and> toRate \<noteq> 0"
    using assms by (auto simp: resample_def split: if_splits)
  with assms(1,2) have n: "0 \<le> ?n" "?n \<le> maxArrayLength"
    and out: "out = map (interpolate data ?r) [0..<nat ?n]"
    by (auto simp: resample_rates split: if_splits)
  from out assms(3) have i: "int i < ?n" by simp
  have "0 < ?r"
  proof (rule ccontr)
    assume a: "\<not> 0 < ?r"
    from rates have nz: "fromRate / toRate \<noteq> 0" by simp
    have "\<not> 0 < fromRate / toRate" using a double_pos [of "fromRate / toRate"] by blast
    with nz have "fromRate / toRate < 0" by linarith
    then have "?r < 0" by (rule double_neg)
    then have "real (length data) / ?r \<le> 0" by (simp add: divide_nonneg_neg divide_le_0_iff)
    then have "double (real (length data) / ?r) \<le> 0"
      using double_neg [of "real (length data) / ?r"]
      by (cases "real (length data) / ?r = 0") auto
    then have "?n \<le> 0" unfolding round_def by linarith
    with i show False by simp
  qed
  moreover from n(2) have "?n \<le> 2 ^ 50" by (simp add: maxArrayLength_def)
  ultimately show ?thesis using i by (rule read_in_range)
qed




text \<open>The two views of a buffer agree: reading the bytes of 16-bit samples
  back gives the samples.\<close>

lemma word_cat_bytes:
  "word_cat (ucast (drop_bit 8 w) :: 8 word) (ucast w :: 8 word) = (w :: 16 word)"
  by (rule bit_word_eqI) (auto simp: bit_simps)

lemma int16_of_bytes_of: "int16_of (bytes_of pcm16) = pcm16"
  by (induction pcm16) (simp_all add: bytes_of_def word_cat_bytes)

text \<open>Dropping the fraction moves a number by less than one and keeps it
  within any integer bounds it was in.\<close>

lemma trunc_error: "\<bar>real_of_int (trunc y) - y\<bar> < 1"
  unfolding trunc_def by (simp; linarith)

lemma trunc_range:
  assumes "- real_of_int b \<le> y" and "y \<le> real_of_int b"
  shows "- b \<le> trunc y \<and> trunc y \<le> b"
  using assms unfolding trunc_def
  by (auto simp: le_floor_iff floor_le_iff ceiling_le_iff le_ceiling_iff; linarith)

text \<open>Within the 16-bit range \<open>ToInt16\<close> does not wrap.\<close>

lemma sint_toInt16:
  assumes "- 32767 \<le> y" and "y \<le> 32767"
  shows "sint (toInt16 y) = trunc y"
proof -
  from trunc_range [of 32767 y] assms have "- 32767 \<le> trunc y \<and> trunc y \<le> 32767" by simp
  then have "- (2 ^ 15) \<le> trunc y" "trunc y < 2 ^ 15" by simp_all
  then have "signed_take_bit 15 (trunc y) = trunc y" by (rule signed_take_bit_int_eq_self)
  then show ?thesis by (simp add: toInt16_def sint_sbintrunc')
qed

lemma clamp_range:
  "- 32767 \<le> max (- 1) (min 1 x) * 32767 \<and> max (- 1) (min 1 x) * 32767 \<le> (32767::real)"
  by (simp add: max_def min_def)

text \<open>Evaluating the rounding on numerals.\<close>

lemmas float_eval = double_def fround_def round_to_def binade_def rne_def
  exponent_up.simps exponent_down.simps Let_def

lemma interpolate_unfold:
  "interpolate data ratio i =
     fround
       (if nat \<lfloor>double (real i * ratio)\<rfloor> + 1 < length data
        then double
               (double (data ! nat \<lfloor>double (real i * ratio)\<rfloor> *
                        double (1 - double (double (real i * ratio) -
                                            real (nat \<lfloor>double (real i * ratio)\<rfloor>)))) +
                double (data ! (nat \<lfloor>double (real i * ratio)\<rfloor> + 1) *
                        double (double (real i * ratio) -
                                real (nat \<lfloor>double (real i * ratio)\<rfloor>))))
        else data ! nat \<lfloor>double (real i * ratio)\<rfloor>)"
  by (simp only: interpolate_def Let_def)

lemmas resample_eval = resample_def maxArrayLength_def interpolate_unfold float_eval

lemma resample_example:
  "resample [1 / 2, 1 / 2, 1 / 2] 48000 16000 = Inr [1 / 2]"
  by (simp add: resample_eval)

lemma resample_example_zero:
  "resample [0, 0, 0] 48000 16000 = Inr [0]"
  by (simp add: resample_eval)

lemma quantize_example: "bytes_of (map quantize [1 / 2]) = [255, 63]"
  by (simp add: bytes_of_def quantize_def toInt16_def trunc_def)

text \<open>Three lengths as the code computes them. The second and the third are
  one less than the rounded exact quotient, which is a half-integer (220.5 and
  12.5): the rounded quotient of the rates is a little too large.\<close>

lemma newLength_4096:
  "round (double (4096 / double (48000 / 16000))) = 1365"
  by (simp add: float_eval round_def)

lemma newLength_240:
  "round (double (240 / double (12000 / 11025))) = 220"
  by (simp add: float_eval round_def)

lemma newLength_7:
  "round (double (7 / double (8960 / 16000))) = 12"
  by (simp add: float_eval round_def)

subsection \<open>Facts about the handlers\<close>

lemmas plain_handler_defs = connect_def connect_resolved_def onopen_def setLang_def
  onerror_def onclose_def startMic_unsupported_def startMic_failed_def startMic_ok_def

lemmas handler_defs = stopAll_def plain_handler_defs

text \<open>The handlers that have nothing to do with playback leave its cells
  alone, and none of them removes the audio context.\<close>

lemma connect_rejected_Inr:
  assumes "connect_rejected s r err = Inr s1"
  shows "playback s1 = playback s" and "audioContextRef s1 = audioContextRef s"
    and "sessionRef s1 = sessionRef s" and "sent s1 = sent s"
  using assms by (cases err; auto simp: connect_rejected_def playback_def)+

lemma onaudioprocess_Inr:
  assumes "onaudioprocess proc s d = Inr s1"
  shows "playback s1 = playback s" and "audioContextRef s1 = audioContextRef s"
    and "sessionRef s1 = sessionRef s"
  using assms
  by (auto simp: onaudioprocess_def playback_def Let_def split: option.splits if_splits sum.splits)

lemma stopAll_playback [simp]:
  "playback (stopAll s) = playback s"
  "(audioContextRef (stopAll s) = None) = (audioContextRef s = None)"
  by (simp_all add: stopAll_def playback_def)

lemma step_AudioProcess:
  "playback (step s (AudioProcess p d)) = playback s"
  "audioContextRef (step s (AudioProcess p d)) = audioContextRef s"
  "sessionRef (step s (AudioProcess p d)) = sessionRef s"
proof -
  have "playback (step s (AudioProcess p d)) = playback s \<and>
        audioContextRef (step s (AudioProcess p d)) = audioContextRef s \<and>
        sessionRef (step s (AudioProcess p d)) = sessionRef s"
  proof (cases "p < length (processors s)")
    case False
    then show ?thesis by (simp add: step_def)
  next
    case True
    show ?thesis
    proof (cases "onaudioprocess (processors s ! p) s d")
      case (Inl raised)
      with True show ?thesis by (simp add: step_def)
    next
      case (Inr s1)
      with True onaudioprocess_Inr [OF Inr] show ?thesis by (simp add: step_def)
    qed
  qed
  then show "playback (step s (AudioProcess p d)) = playback s"
    "audioContextRef (step s (AudioProcess p d)) = audioContextRef s"
    "sessionRef (step s (AudioProcess p d)) = sessionRef s"
    by simp_all
qed

lemma step_Reject:
  "playback (step s (Reject h err)) = playback s"
  "audioContextRef (step s (Reject h err)) = audioContextRef s"
  "sessionRef (step s (Reject h err)) = sessionRef s"
  by (cases err; simp add: step_def connect_rejected_def playback_def)+

lemma step_plain:
  assumes "\<And>m. e \<noteq> Message m" and "\<And>k. e \<noteq> Ended k"
  shows "playback (step s e) = playback s" and "payload e = []"
proof -
  show "payload e = []" using assms by (cases e) auto
  show "playback (step s e) = playback s"
  proof (cases e)
    case (Reject h err)
    then show ?thesis by (simp add: step_Reject)
  next
    case (AudioProcess p d)
    then show ?thesis by (simp add: step_AudioProcess)
  qed (use assms in \<open>simp_all add: step_def plain_handler_defs playback_def stopAll_def\<close>)
qed

lemma playNextChunk_idle:
  "audioQueue s = [] \<or> audioContextRef s = None \<Longrightarrow> playNextChunk s = s\<lparr>isPlaying := False\<rparr>"
  by (simp add: playNextChunk_def)

lemma playNextChunk_start:
  "audioQueue s = c # cs \<Longrightarrow> audioContextRef s \<noteq> None \<Longrightarrow>
   playNextChunk s = s\<lparr>isPlaying := True, audioQueue := cs,
                        sources := sources s @ [float32_of c],
                        started := started s @ [float32_of c]\<rparr>"
  by (simp add: playNextChunk_def Let_def)

lemma playNextChunk_context [simp]:
  "audioContextRef (playNextChunk s) = audioContextRef s"
  by (simp add: playNextChunk_def Let_def)

lemma playNextChunk_sessionRef [simp]:
  "sessionRef (playNextChunk s) = sessionRef s"
  by (simp add: playNextChunk_def Let_def)


lemma receive_audio_Inr:
  assumes "receive_audio s bytes = Inr s1"
  shows "even (length bytes)"
    and "s1 = playNextChunk (s\<lparr>audioQueue := audioQueue s @ [int16_of bytes]\<rparr>) \<and> \<not> isPlaying s
       \<or> s1 = s\<lparr>audioQueue := audioQueue s @ [int16_of bytes]\<rparr> \<and> isPlaying s"
  using assms by (auto simp: receive_audio_def Let_def split: if_splits)

text \<open>A message that \<open>onmessage\<close> processes to its end is 16-bit audio or
  none; with the \<open>interrupted\<close> flag it is an interruption.\<close>

lemma onmessage_Inr_even:
  assumes "onmessage s m = Inr s2"
  shows "case inlineData m of None \<Rightarrow> True | Some bytes \<Rightarrow> even (length bytes)"
  using assms
  by (auto simp: onmessage_def receive_audio_def Let_def split: option.splits if_splits sum.splits)

lemma onmessage_Inr_interruption:
  assumes "onmessage s m = Inr s2"
  shows "interruption (Message m) = interrupted m"
  using onmessage_Inr_even [OF assms] by simp

lemma onmessage_Inr_cases:
  assumes "onmessage s m = Inr s2"
  shows "\<exists>s1. s2 = (if interrupted m then s1\<lparr>audioQueue := [], isPlaying := False\<rparr> else s1) \<and>
           (s1 = s \<and> chunks_of m = [] \<or>
            (\<exists>bytes. chunks_of m = [int16_of bytes] \<and>
               (s1 = playNextChunk (s\<lparr>audioQueue := audioQueue s @ [int16_of bytes]\<rparr>) \<and> \<not> isPlaying s
                \<or> s1 = s\<lparr>audioQueue := audioQueue s @ [int16_of bytes]\<rparr> \<and> isPlaying s)))"
proof (cases "inlineData m")
  case None
  with assms show ?thesis by (auto simp: onmessage_def chunks_of_def)
next
  case (Some bytes)
  show ?thesis
  proof (cases "bytes = []")
    case True
    with assms Some show ?thesis by (auto simp: onmessage_def chunks_of_def)
  next
    case False
    with assms Some obtain s1 where r: "receive_audio s bytes = Inr s1"
      and s2: "s2 = (if interrupted m then s1\<lparr>audioQueue := [], isPlaying := False\<rparr> else s1)"
      by (auto simp: onmessage_def split: sum.splits)
    from receive_audio_Inr(1) [OF r] Some False
    have "chunks_of m = [int16_of bytes]" by (simp add: chunks_of_def)
    with receive_audio_Inr(2) [OF r] s2 show ?thesis by blast
  qed
qed



text \<open>A message on which \<open>onmessage\<close> raises delivers no chunk and is no
  interruption.\<close>

lemma onmessage_Inl:
  assumes "onmessage s m = Inl err"
  shows "chunks_of m = []" and "\<not> interruption (Message m)"
  using assms
  by (auto simp: onmessage_def receive_audio_def chunks_of_def Let_def
      split: option.splits if_splits sum.splits)


lemma onmessage_context:
  assumes "onmessage s m = Inr s1"
  shows "audioContextRef s1 = audioContextRef s" and "sessionRef s1 = sessionRef s"
proof -
  from onmessage_Inr_cases [OF assms]
  show "audioContextRef s1 = audioContextRef s" and "sessionRef s1 = sessionRef s" by auto
qed

lemma step_Message_context:
  "audioContextRef (step s (Message m)) = audioContextRef s"
  by (cases "onmessage s m") (auto simp: step_def dest: onmessage_context)

text \<open>Once there is an audio context there is one ever after.\<close>

lemma step_context_None:
  assumes "audioContextRef (step s e) = None"
  shows "audioContextRef s = None"
proof (cases e)
  case (Message m)
  with assms show ?thesis by (simp add: step_Message_context)
next
  case (Reject h err)
  with assms show ?thesis by (simp add: step_Reject)
next
  case (AudioProcess p d)
  with assms show ?thesis by (simp add: step_AudioProcess)
qed (use assms in \<open>simp_all add: step_def plain_handler_defs stopAll_def split: if_splits\<close>)

subsection \<open>First in, first out\<close>







subsection \<open>One playback cycle at a time\<close>








subsection \<open>Without an audio context\<close>

lemma step_no_context:
  assumes "audioContextRef (step s e) = None"
  shows "started (step s e) = started s"
    and "\<not> isPlaying s \<Longrightarrow> \<not> isPlaying (step s e)"
    and "audioQueue (step s e) = (if interruption e then [] else audioQueue s @ payload e)"
proof -
  have ctx: "audioContextRef s = None" using assms by (rule step_context_None)
  consider (message) m where "e = Message m" | (ended) k where "e = Ended k"
    | (other) "\<And>m. e \<noteq> Message m" "\<And>k. e \<noteq> Ended k"
    by blast
  then have "started (step s e) = started s \<and>
        (\<not> isPlaying s \<longrightarrow> \<not> isPlaying (step s e)) \<and>
        audioQueue (step s e) = (if interruption e then [] else audioQueue s @ payload e)"
  proof cases
    case (message m)
    show ?thesis
    proof (cases "onmessage s m")
      case (Inl err)
      with message onmessage_Inl [OF Inl] show ?thesis by (auto simp: step_def)
    next
      case (Inr s2)
      from onmessage_Inr_cases [OF Inr] obtain s1 where
        s2: "s2 = (if interrupted m then s1\<lparr>audioQueue := [], isPlaying := False\<rparr> else s1)"
        and s1: "s1 = s \<and> chunks_of m = [] \<or>
            (\<exists>bytes. chunks_of m = [int16_of bytes] \<and>
               (s1 = playNextChunk (s\<lparr>audioQueue := audioQueue s @ [int16_of bytes]\<rparr>) \<and> \<not> isPlaying s
                \<or> s1 = s\<lparr>audioQueue := audioQueue s @ [int16_of bytes]\<rparr> \<and> isPlaying s))"
        by blast
      from s1 ctx have "started s1 = started s \<and> (\<not> isPlaying s \<longrightarrow> \<not> isPlaying s1) \<and>
          audioQueue s1 = audioQueue s @ chunks_of m"
        by (auto simp: playNextChunk_idle)
      with s2 message Inr onmessage_Inr_interruption [OF Inr] show ?thesis
        by (simp add: step_def)
    qed
  next
    case (ended k)
    with ctx show ?thesis by (simp add: step_def playNextChunk_idle)
  next
    case other
    have "\<not> interruption e" using other(1) by (cases e) auto
    with step_plain(1) [OF other, of s] step_plain(2) [OF other] show ?thesis
      by (simp add: playback_def)
  qed
  then show "started (step s e) = started s"
    and "\<not> isPlaying s \<Longrightarrow> \<not> isPlaying (step s e)"
    and "audioQueue (step s e) = (if interruption e then [] else audioQueue s @ payload e)"
    by simp_all
qed

lemma run_snoc: "run s (es @ [e]) = step (run s es) e"
  by (induction es arbitrary: s) simp_all

lemma payloads_snoc: "payloads (es @ [e]) = payloads es @ payload e"
  by (simp add: payloads_def)

lemma since_interruption_snoc:
  "since_interruption (es @ [e]) = (if interruption e then [] else since_interruption es @ [e])"
  by (simp add: since_interruption_def)

lemma run_no_context:
  assumes "audioContextRef (run bridge0 es) = None"
  shows "started (run bridge0 es) = [] \<and> \<not> isPlaying (run bridge0 es) \<and>
         audioQueue (run bridge0 es) = payloads (since_interruption es)"
  using assms
proof (induction es rule: rev_induct)
  case Nil
  show ?case by (simp add: bridge0_def payloads_def since_interruption_def)
next
  case (snoc e es)
  let ?s = "run bridge0 es"
  from snoc.prems have after: "audioContextRef (step ?s e) = None"
    by (simp add: run_snoc)
  then have "audioContextRef ?s = None" by (rule step_context_None)
  from snoc.IH [OF this] have ih1: "started ?s = []" and ih2: "\<not> isPlaying ?s"
    and ih3: "audioQueue ?s = payloads (since_interruption es)"
    by blast+
  from step_no_context(1) [OF after] ih1 have "started (step ?s e) = []" by simp
  moreover from step_no_context(2) [OF after ih2] have "\<not> isPlaying (step ?s e)" .
  moreover from step_no_context(3) [OF after] ih3
  have "audioQueue (step ?s e) = payloads (since_interruption (es @ [e]))"
    by (simp add: since_interruption_snoc payloads_snoc payloads_def)
  ultimately show ?case unfolding run_snoc by blast
qed

subsection \<open>The example states\<close>

lemmas eval_defs = step_def session_is_def opened_def bridge0_def plain_handler_defs stopAll_def
  connect_rejected_def onmessage_def receive_audio_def playNextChunk_def Let_def
  msgA_def msgB_def msgC_def msgInterrupt_def
  float32_of_def dequantize_def word_cat_eq

lemma listening_eval:
  "listening =
     \<lparr>lang = En, isConnected = True, isConnecting = False, isListening = True,
      error = None, audioContextRef = Some Running, streamRef = Some [TrackLive],
      sessionRef = Some 0, audioQueue = [], isPlaying = False,
      memo = \<lparr>render_lang = En, render_isConnected = False\<rparr>,
      sessions = [Opened],
      renders = [\<lparr>render_lang = En, render_isConnected = False\<rparr>],
      processors = [\<lparr>handler_render = \<lparr>render_lang = En, render_isConnected = False\<rparr>,
                     sampleRate = 48000\<rparr>],
      sources = [], started = [], sent = []\<rparr>"
  by (simp add: listening_def eval_defs)

lemma playingA_eval:
  "playingA = listening\<lparr>audioQueue := [[2], [3]], isPlaying := True,
                sources := [[1 / 32767]], started := [[1 / 32767]]\<rparr>"
  by (simp add: playingA_def listening_eval eval_defs)

lemma sending_eval:
  "sending =
     \<lparr>lang = Bn, isConnected = True, isConnecting = False, isListening = True,
      error = None, audioContextRef = Some Running, streamRef = Some [TrackLive],
      sessionRef = Some 1, audioQueue = [], isPlaying = False,
      memo = \<lparr>render_lang = Bn, render_isConnected = True\<rparr>,
      sessions = [Opened, Opened],
      renders = [\<lparr>render_lang = En, render_isConnected = False\<rparr>,
                 \<lparr>render_lang = Bn, render_isConnected = True\<rparr>],
      processors = [\<lparr>handler_render = \<lparr>render_lang = En, render_isConnected = False\<rparr>,
                     sampleRate = 48000\<rparr>,
                    \<lparr>handler_render = \<lparr>render_lang = Bn, render_isConnected = True\<rparr>,
                     sampleRate = 48000\<rparr>],
      sources = [], started = [], sent = []\<rparr>"
  by (simp add: sending_def listening_eval eval_defs)

text \<open>The handler of the second session's processor sends a frame; that of
  the first session's processor never does.\<close>

lemma onaudioprocess_example:
  "onaudioprocess \<lparr>handler_render = \<lparr>render_lang = Bn, render_isConnected = True\<rparr>,
                    sampleRate = 48000\<rparr> s [1 / 2, 1 / 2, 1 / 2] =
     (case sessionRef s of
        None \<Rightarrow> Inr s
      | Some session \<Rightarrow>
          Inr (s\<lparr>sent := sent s @
                 [(session, \<lparr>media_data = [255, 63], mimeType = ''audio/pcm;rate=16000''\<rparr>)]\<rparr>))"
  using quantize_example
  by (simp add: onaudioprocess_def targetSampleRate_def resample_example split: option.splits)


subsection \<open>The button and the sessions\<close>

text \<open>The button asks for no session while a connect attempt is in flight or
  the bridge is connected; \<open>connect\<close> itself always asks for one.\<close>

lemma click_guard:
  assumes "isConnecting s \<or> isConnected s"
  shows "sessions (step s Click) = sessions s"
  using assms by (auto simp: step_def stopAll_def)

lemma connect_unguarded:
  "sessions (connect s) = sessions s @ [Pending]"
  by (simp add: connect_def)

text \<open>When the library rejects with \<open>null\<close> or \<open>undefined\<close>, the \<open>catch\<close> block
  raises: no error text is shown and \<open>isConnecting\<close> stays set, which keeps
  the button disabled.\<close>

lemma reject_nullish:
  "isConnecting (run bridge0 [Click, Reject 0 Nullish]) \<and>
   error (run bridge0 [Click, Reject 0 Nullish]) = None \<and>
   step (run bridge0 [Click, Reject 0 Nullish]) Click = run bridge0 [Click, Reject 0 Nullish]"
  by (simp add: eval_defs)

section \<open>The claims\<close>

subsection \<open>Resampling and quantisation\<close>

text \<open>
  Claim C3, as the code has it. For positive rates that differ, and a result
  that fits in memory, \<open>resample\<close> returns \<open>Math.round(len / (fromRate /
  toRate))\<close> samples, the two quotients rounded as doubles are. The length is
  scaled by the target rate over the source rate (the claim has the quotient
  the other way round, \<open>len * from / to\<close>), and it is the rounded exact
  quotient up to the rounding of the two divisions: it differs from
  \<open>len * toRate / fromRate\<close> by at most \<open>1/2 + len * toRate / fromRate / 2^51\<close>.
\<close>

theorem resample_length_corrected:
  assumes "0 < fromRate" and "0 < toRate" and "fromRate \<noteq> toRate"
    and "real (length data) * toRate / fromRate \<le> 2 ^ 49"
  shows "\<exists>out. resample data fromRate toRate = Inr out \<and>
           int (length out) =
             round (double (real (length data) / double (fromRate / toRate))) \<and>
           \<bar>real (length out) - real (length data) * toRate / fromRate\<bar>
             \<le> 1 / 2 + real (length data) * toRate / fromRate / 2 ^ 51"
proof -
  let ?n = "round (double (real (length data) / double (fromRate / toRate)))"
  let ?out = "map (interpolate data (double (fromRate / toRate))) [0..<nat ?n]"
  have r: "resample data fromRate toRate = Inr ?out" using assms by (rule resample_positive)
  have n0: "0 \<le> ?n" using assms(1,2) by (rule newLength_nonneg)
  then have len: "int (length ?out) = ?n" by simp
  have "\<bar>real_of_int ?n - real (length data) * toRate / fromRate\<bar>
          \<le> 1 / 2 + real (length data) * toRate / fromRate / 2 ^ 51"
    using newLength_close [OF assms(1,2), of "length data"] by (rule round_close)
  moreover have "real (length ?out) = real_of_int ?n" using n0 by simp
  ultimately have "\<bar>real (length ?out) - real (length data) * toRate / fromRate\<bar>
          \<le> 1 / 2 + real (length data) * toRate / fromRate / 2 ^ 51"
    by (simp only:)
  with r len show ?thesis by blast
qed

text \<open>240 samples from 12000 Hz to 11025 Hz: the code returns 220 samples,
  where the exact quotient is 220.5 and rounds to 221.\<close>

theorem resample_length_corrected_witness:
  "(\<exists>out. resample (replicate 240 0) 12000 11025 = Inr out \<and> int (length out) = 220) \<and>
   round (real (length (replicate 240 (0::real))) * 11025 / 12000) = 221"
  using resample_length_corrected [of 12000 11025 "replicate 240 0"]
  by (simp add: float_eval round_def) blast

text \<open>
  Claim C3 as stated fails: three samples from 48000 Hz to 16000 Hz give one
  sample, and \<open>round (3 * 48000 / 16000)\<close> is nine.
\<close>

theorem resample_length_counterexample:
  "resample [0, 0, 0] 48000 16000 = Inr [0] \<and>
   int (length [0 :: real]) \<noteq> round (real (length [0 :: real, 0, 0]) * 48000 / 16000)"
  by (simp add: resample_example_zero round_def)

text \<open>
  Claim C7. With equal source and target rates \<open>resample\<close> returns its input,
  for every input and every rate.
\<close>

theorem resample_identity: "resample data r r = Inr data"
  by (simp add: resample_def)

text \<open>
  Claim C8. Quantisation clamps the sample to \<open>[-1, 1]\<close>, scales it by 32767
  and drops the fraction; the result is a 16-bit value between -32767 and
  32767. For every \<open>x\<close> in \<open>[-1, 1]\<close>, dividing the quantised value by 32767
  gives a number within \<open>1 / 32767\<close> of \<open>x\<close>.
\<close>

theorem quantize_round_trip:
  "sint (quantize x) = trunc (max (- 1) (min 1 x) * 32767) \<and>
   - 32767 \<le> sint (quantize x) \<and> sint (quantize x) \<le> 32767 \<and>
   (- 1 \<le> x \<and> x \<le> 1 \<longrightarrow> \<bar>dequantize (quantize x) - x\<bar> < 1 / 32767)"
proof -
  let ?y = "max (- 1) (min 1 x) * 32767"
  from clamp_range [of x] have r: "- 32767 \<le> ?y" "?y \<le> 32767" by simp_all
  then have q: "sint (quantize x) = trunc ?y" unfolding quantize_def by (rule sint_toInt16)
  from trunc_range [of 32767 ?y] r have b: "- 32767 \<le> trunc ?y \<and> trunc ?y \<le> 32767" by simp
  have "\<bar>dequantize (quantize x) - x\<bar> < 1 / 32767" if "- 1 \<le> x" "x \<le> 1"
  proof -
    from that have y: "?y = x * 32767" by simp
    from trunc_error [of "x * 32767"]
    have "\<bar>real_of_int (trunc (x * 32767)) - x * 32767\<bar> < 1" .
    then have "\<bar>real_of_int (trunc (x * 32767)) / 32767 - x\<bar> < 1 / 32767"
      by (simp add: field_simps abs_if split: if_splits)
    with q y show ?thesis by (simp add: dequantize_def)
  qed
  with q b show ?thesis by simp
qed

theorem quantize_round_trip_witness:
  "sint (quantize (1 / 2)) = 16383 \<and> \<bar>dequantize (quantize (1 / 2)) - 1 / 2\<bar> < 1 / 32767"
  using quantize_round_trip [of "1 / 2"] by (simp add: trunc_def)




subsection \<open>Frames without a session\<close>

text \<open>
  Claim C9 does not hold of the code. The user connects and, while connected,
  changes the language: \<open>connect\<close> is memoised anew in a render whose
  \<open>isConnected\<close> is true. The user stops, connects again (session 1, whose
  handler now sees \<open>isConnected\<close> true for ever) and stops again. After this
  teardown the three flags are false and the audio context is closed, and
  \<open>sessionRef\<close> still holds session 1: a frame that reaches the handler is
  sent to it. Likewise a frame that arrives during the second connect,
  before its \<open>await\<close> returns, is sent to session 0, which \<open>sessionRef\<close> still
  holds from the first.
\<close>

theorem frame_sent_after_teardown:
  "\<not> isConnected (run bridge0
       [Click, Open 0, Resolve 0, MicStarted 0 1 48000, ToggleLang, Click,
        Click, Open 1, Resolve 1, MicStarted 1 1 48000, Click]) \<and>
   \<not> isListening (run bridge0
       [Click, Open 0, Resolve 0, MicStarted 0 1 48000, ToggleLang, Click,
        Click, Open 1, Resolve 1, MicStarted 1 1 48000, Click]) \<and>
   \<not> isConnecting (run bridge0
       [Click, Open 0, Resolve 0, MicStarted 0 1 48000, ToggleLang, Click,
        Click, Open 1, Resolve 1, MicStarted 1 1 48000, Click]) \<and>
   audioContextRef (run bridge0
       [Click, Open 0, Resolve 0, MicStarted 0 1 48000, ToggleLang, Click,
        Click, Open 1, Resolve 1, MicStarted 1 1 48000, Click]) = Some Closed \<and>
   sent (run bridge0
       [Click, Open 0, Resolve 0, MicStarted 0 1 48000, ToggleLang, Click,
        Click, Open 1, Resolve 1, MicStarted 1 1 48000, Click]) = [] \<and>
   sent (run bridge0
       [Click, Open 0, Resolve 0, MicStarted 0 1 48000, ToggleLang, Click,
        Click, Open 1, Resolve 1, MicStarted 1 1 48000, Click,
        AudioProcess 1 [1 / 2, 1 / 2, 1 / 2]]) =
     [(1, \<lparr>media_data = [255, 63], mimeType = ''audio/pcm;rate=16000''\<rparr>)] \<and>
   sent (run bridge0
       [Click, Open 0, Resolve 0, MicStarted 0 1 48000, ToggleLang, Click,
        Click, Open 1, MicStarted 1 1 48000,
        AudioProcess 1 [1 / 2, 1 / 2, 1 / 2]]) =
     [(0, \<lparr>media_data = [255, 63], mimeType = ''audio/pcm;rate=16000''\<rparr>)]"
proof -
  have a: "run bridge0
       [Click, Open 0, Resolve 0, MicStarted 0 1 48000, ToggleLang, Click,
        Click, Open 1, Resolve 1, MicStarted 1 1 48000, Click] = step sending Click"
    by (simp add: sending_def listening_def)
  have b: "run bridge0
       [Click, Open 0, Resolve 0, MicStarted 0 1 48000, ToggleLang, Click,
        Click, Open 1, Resolve 1, MicStarted 1 1 48000, Click,
        AudioProcess 1 [1 / 2, 1 / 2, 1 / 2]] =
      step (step sending Click) (AudioProcess 1 [1 / 2, 1 / 2, 1 / 2])"
    by (simp add: sending_def listening_def)
  have c: "run bridge0
       [Click, Open 0, Resolve 0, MicStarted 0 1 48000, ToggleLang, Click,
        Click, Open 1, MicStarted 1 1 48000,
        AudioProcess 1 [1 / 2, 1 / 2, 1 / 2]] =
      step (run listening [ToggleLang, Click, Click, Open 1, MicStarted 1 1 48000])
        (AudioProcess 1 [1 / 2, 1 / 2, 1 / 2])"
    by (simp add: listening_def)
  have d: "step sending Click = stopAll sending"
    by (simp add: step_def sending_eval)
  show ?thesis unfolding a b c d
    by (simp add: sending_eval listening_eval eval_defs onaudioprocess_example)
qed

subsection \<open>Playback\<close>






text \<open>
  Claim C10, as the code has it. When the queue is empty or there is no audio
  context, \<open>playNextChunk\<close> clears \<open>isPlaying\<close> and does nothing else: it takes
  no chunk from the queue. Hence, in every state the bridge reaches from its
  initial state in which the audio context is still absent, \<open>isPlaying\<close> is
  false, no buffer has been started, and the queue holds the chunks received
  since the last interruption, in the order received. They do not stay there
  for ever: an interruption discards them, and once there is an audio context
  \<open>playNextChunk\<close> starts the head of the queue.
\<close>

theorem playNextChunk_without_context:
  "(audioQueue s = [] \<or> audioContextRef s = None \<longrightarrow>
      playNextChunk s = s\<lparr>isPlaying := False\<rparr>) \<and>
   (audioContextRef (run bridge0 es) = None \<longrightarrow>
      \<not> isPlaying (run bridge0 es) \<and> started (run bridge0 es) = [] \<and>
      audioQueue (run bridge0 es) = payloads (since_interruption es)) \<and>
   (audioQueue t = c # cs \<and> audioContextRef t \<noteq> None \<longrightarrow>
      playNextChunk t = t\<lparr>isPlaying := True, audioQueue := cs,
                           sources := sources t @ [float32_of c],
                           started := started t @ [float32_of c]\<rparr>)"
proof (intro conjI impI)
  assume "audioQueue s = [] \<or> audioContextRef s = None"
  then show "playNextChunk s = s\<lparr>isPlaying := False\<rparr>" by (rule playNextChunk_idle)
next
  assume a: "audioContextRef (run bridge0 es) = None"
  from run_no_context [OF a] show "\<not> isPlaying (run bridge0 es)" by blast
  from run_no_context [OF a] show "started (run bridge0 es) = []" by blast
  from run_no_context [OF a]
  show "audioQueue (run bridge0 es) = payloads (since_interruption es)" by blast
next
  assume "audioQueue t = c # cs \<and> audioContextRef t \<noteq> None"
  then show "playNextChunk t = t\<lparr>isPlaying := True, audioQueue := cs,
                           sources := sources t @ [float32_of c],
                           started := started t @ [float32_of c]\<rparr>"
    by (simp add: playNextChunk_start)
qed

theorem playNextChunk_without_context_witness:
  "playNextChunk (bridge0\<lparr>audioQueue := [[1]], isPlaying := True\<rparr>)
     = bridge0\<lparr>audioQueue := [[1]], isPlaying := False\<rparr> \<and>
   audioQueue (run bridge0 [Click, Open 0, Resolve 0, Message msgA, Message msgInterrupt,
                            Message msgB, Message msgC]) = [[2], [3]] \<and>
   \<not> isPlaying (run bridge0 [Click, Open 0, Resolve 0, Message msgA, Message msgInterrupt,
                            Message msgB, Message msgC]) \<and>
   started (run bridge0 [Click, Open 0, Resolve 0, Message msgA, Message msgInterrupt,
                            Message msgB, Message msgC]) = [] \<and>
   started (playNextChunk (listening\<lparr>audioQueue := [[1], [2]]\<rparr>)) = [float32_of [1]]"
proof -
  let ?es = "[Click, Open 0, Resolve 0, Message msgA, Message msgInterrupt,
              Message msgB, Message msgC]"
  let ?s = "bridge0\<lparr>audioQueue := [[1]], isPlaying := True\<rparr>"
  let ?t = "listening\<lparr>audioQueue := [[1], [2]]\<rparr>"
  have c: "audioQueue ?s = [] \<or> audioContextRef ?s = None" by (simp add: bridge0_def)
  have n: "audioContextRef (run bridge0 ?es) = None" by (simp add: eval_defs)
  have q: "audioQueue ?t = [1] # [[2]] \<and> audioContextRef ?t \<noteq> None"
    by (simp add: listening_eval)
  have pl: "payloads (since_interruption ?es) = [[2], [3]]"
    by (simp add: since_interruption_def payloads_def chunks_of_def
        msgA_def msgB_def msgC_def msgInterrupt_def word_cat_eq)
  note t = playNextChunk_without_context [of ?s ?es ?t "[1]" "[[2]]"]
  from t c have "playNextChunk ?s = ?s\<lparr>isPlaying := False\<rparr>" by blast
  moreover from t n pl have "audioQueue (run bridge0 ?es) = [[2], [3]]" by simp
  moreover from t n have "\<not> isPlaying (run bridge0 ?es)" "started (run bridge0 ?es) = []"
    by blast+
  moreover from t q have "playNextChunk ?t = ?t\<lparr>isPlaying := True, audioQueue := [[2]],
                           sources := sources ?t @ [float32_of [1]],
                           started := started ?t @ [float32_of [1]]\<rparr>" by blast
  then have "started (playNextChunk ?t) = [float32_of [1]]" by (simp add: listening_eval)
  ultimately show ?thesis by simp
qed

text \<open>
  Claim C10 as stated fails: chunks received while the audio context is absent
  do not remain queued indefinitely. Chunk A arrives before the microphone
  has started and is queued. An interruption discards it, the audio context
  still absent. Without the interruption, chunk A is played once the
  microphone has started and another chunk has arrived.
\<close>

theorem queued_chunk_discarded_or_played:
  "audioContextRef (run bridge0 [Click, Open 0, Resolve 0, Message msgA]) = None \<and>
   audioQueue (run bridge0 [Click, Open 0, Resolve 0, Message msgA]) = [[1]] \<and>
   audioContextRef (run bridge0 [Click, Open 0, Resolve 0, Message msgA,
                                 Message msgInterrupt]) = None \<and>
   audioQueue (run bridge0 [Click, Open 0, Resolve 0, Message msgA,
                            Message msgInterrupt]) = [] \<and>
   started (run bridge0 [Click, Open 0, Resolve 0, Message msgA,
                         MicStarted 0 1 48000, Message msgB]) = [float32_of [1]]"
  by (simp add: eval_defs)

subsection \<open>Teardown\<close>

text \<open>
  Claim C2, as the code has it. After \<open>stopAll\<close>, from any state, the flags
  \<open>isConnected\<close>, \<open>isListening\<close> and \<open>isConnecting\<close> are false, every track of
  the capture stream is stopped and the audio context, which serves capture
  and output alike, is closed, where they exist. The queue and \<open>isPlaying\<close>
  are as they were, and so are the session reference and the session itself.
  A second \<open>stopAll\<close> changes nothing.
\<close>

theorem stopAll_effect:
  "\<not> isConnected (stopAll s) \<and> \<not> isListening (stopAll s) \<and> \<not> isConnecting (stopAll s) \<and>
   streamRef (stopAll s) = map_option (map (\<lambda>t. TrackEnded)) (streamRef s) \<and>
   audioContextRef (stopAll s) = map_option (\<lambda>c. Closed) (audioContextRef s) \<and>
   audioQueue (stopAll s) = audioQueue s \<and> isPlaying (stopAll s) = isPlaying s \<and>
   sessionRef (stopAll s) = sessionRef s \<and> sessions (stopAll s) = sessions s \<and>
   stopAll (stopAll s) = stopAll s"
  by (cases "streamRef s"; cases "audioContextRef s") (simp_all add: stopAll_def)

text \<open>
  Claim C2 as stated fails: \<open>stopAll\<close> does not empty the queue. In the state
  where chunk A is playing and B and C are queued, the queue is not empty
  after \<open>stopAll\<close>, and \<open>isPlaying\<close> is still set.
\<close>

theorem stopAll_keeps_queue:
  "audioQueue (stopAll playingA) \<noteq> [] \<and> isPlaying (stopAll playingA)"
  by (simp add: playingA_eval stopAll_def)

subsection \<open>Sessions\<close>

text \<open>
  Claim C1 does not hold of the code. The user connects, the session opens,
  the user stops, and connects again: \<open>stopAll\<close> has not closed session 0 (the
  call is commented out) and has left it in \<open>sessionRef\<close>, so that after the
  stop it is still live, and after the second connect two sessions are live.
\<close>

theorem reconnect_leaves_two_sessions:
  "live (run bridge0 [Click, Open 0, Resolve 0, Click]) = [0] \<and>
   \<not> isConnected (run bridge0 [Click, Open 0, Resolve 0, Click]) \<and>
   sessionRef (run bridge0 [Click, Open 0, Resolve 0, Click]) = Some 0 \<and>
   live (run bridge0 [Click, Open 0, Resolve 0, Click, Click, Open 1, Resolve 1]) = [0, 1]"
  by (simp add: eval_defs live_def upt_rec)

end
